theory Spec2Isabelle
  imports Main "HOL-Library.Word" "HOL-Library.Signed_Division"
begin

section \<open>Shared BLE type definitions (ble/BLETypes.h)\<close>

text \<open>
  A shallow embedding of the header \<^verbatim>\<open>features/FEATURE_BLE/ble/BLETypes.h\<close>.
  Fixed width integers are words. Objects live in a flat byte-addressed memory, a
  pointer is an address, and every function that writes through a pointer takes the
  memory and returns the updated one; a constructor takes the address \<open>this\<close> of the
  storage it initialises. The null pointer is address 0.
\<close>

subsection \<open>Integers and memory\<close>

type_synonym uint8_t = "8 word"
type_synonym uint16_t = "16 word"
type_synonym uint32_t = "32 word"

type_synonym addr = nat
type_synonym memory = "addr \<Rightarrow> uint8_t"

text \<open>A memory holding zero everywhere, to build concrete memories from.\<close>

definition zero_memory :: memory where
  "zero_memory = (\<lambda>a. 0)"

text \<open>The first \<open>n\<close> bytes of the buffer at \<open>p\<close>, in address order.\<close>

definition read_bytes :: "memory \<Rightarrow> addr \<Rightarrow> nat \<Rightarrow> uint8_t list" where
  "read_bytes mem p n = map (\<lambda>i. mem (p + i)) [0..<n]"

text \<open>
  The C library functions the header calls, as ISO C specifies them: \<open>memset mem s c n\<close>
  stores \<open>c\<close> in the \<open>n\<close> bytes from \<open>s\<close> on, \<open>memcpy mem dest src n\<close> stores the \<open>n\<close> bytes
  from \<open>src\<close> on in the \<open>n\<close> bytes from \<open>dest\<close> on (the source bytes are those before the
  call; C leaves overlapping regions undefined). Neither knows the size of the object
  it writes to: a count larger than the object reaches the bytes behind it.
\<close>

definition memset :: "memory \<Rightarrow> addr \<Rightarrow> uint8_t \<Rightarrow> nat \<Rightarrow> memory" where
  "memset mem s c n = (\<lambda>a. if s \<le> a \<and> a < s + n then c else mem a)"

definition memcpy :: "memory \<Rightarrow> addr \<Rightarrow> addr \<Rightarrow> nat \<Rightarrow> memory" where
  "memcpy mem dest src n =
     (\<lambda>a. if dest \<le> a \<and> a < dest + n then mem (src + (a - dest)) else mem a)"

subsection \<open>Attribute handle ranges\<close>

type_synonym attribute_handle_t = uint16_t

text \<open>
  The struct \<open>attribute_handle_range_t\<close>; its members \<open>begin\<close> and \<open>end\<close> carry a
  suffix here, the plain names being reserved words.
\<close>

record attribute_handle_range_t =
  begin_h :: attribute_handle_t
  end_h :: attribute_handle_t

text \<open>\<open>operator==\<close> and \<open>operator!=\<close> of \<open>attribute_handle_range_t\<close>.\<close>

definition range_eq :: "attribute_handle_range_t \<Rightarrow> attribute_handle_range_t \<Rightarrow> bool" where
  "range_eq lhs rhs = ((begin_h lhs = begin_h rhs) \<and> (end_h lhs = end_h rhs))"

definition range_neq :: "attribute_handle_range_t \<Rightarrow> attribute_handle_range_t \<Rightarrow> bool" where
  "range_neq lhs rhs = (\<not> range_eq lhs rhs)"

definition attribute_handle_range ::
  "attribute_handle_t \<Rightarrow> attribute_handle_t \<Rightarrow> attribute_handle_range_t" where
  "attribute_handle_range begin end = \<lparr> begin_h = begin, end_h = end \<rparr>"

subsection \<open>Passkeys\<close>

type_synonym passkey_num_t = uint32_t

definition PASSKEY_LEN :: nat where
  "PASSKEY_LEN = 6"

definition NUMBER_OFFSET :: uint8_t where
  "NUMBER_OFFSET = 0x30"

text \<open>
  The class \<open>PasskeyAscii\<close> has one member, the array \<open>ascii[PASSKEY_LEN]\<close>, so the
  object at \<open>this\<close> is the six bytes from \<open>this\<close> on.

  The default constructor.
\<close>

definition PasskeyAscii :: "memory \<Rightarrow> addr \<Rightarrow> memory" where
  "PasskeyAscii mem this = memset mem this NUMBER_OFFSET PASSKEY_LEN"

text \<open>The constructor from a pointer to a string of digits.\<close>

definition PasskeyAscii_ptr :: "memory \<Rightarrow> addr \<Rightarrow> addr \<Rightarrow> memory" where
  "PasskeyAscii_ptr mem this passkey =
     (if passkey \<noteq> 0 then memcpy mem this passkey PASSKEY_LEN
      else memset mem this NUMBER_OFFSET PASSKEY_LEN)"

text \<open>
  The constructor from a number. Its loop runs \<open>i\<close> from 5 down to 0 with \<open>m\<close> from
  100000 down to 1; both are C \<open>int\<close>s that stay far from the ends of their range, so
  they are integers here, and \<open>m /= 10\<close> is C's truncating division. In \<open>passkey / m\<close>
  and \<open>result * m\<close> the \<open>int\<close> is converted to \<open>uint32_t\<close>; \<open>NUMBER_OFFSET + result\<close> is
  computed in \<open>uint32_t\<close> and cut to a byte by the assignment.
\<close>

function PasskeyAscii_num_loop ::
  "memory \<Rightarrow> addr \<Rightarrow> int \<Rightarrow> int \<Rightarrow> passkey_num_t \<Rightarrow> memory" where
  "PasskeyAscii_num_loop mem this i m passkey =
     (if i \<ge> 0 then
        let result = passkey div word_of_int m;
            mem' = mem(this + nat i := ucast (ucast NUMBER_OFFSET + result :: uint32_t));
            passkey' = passkey - result * word_of_int m
        in PasskeyAscii_num_loop mem' this (i - 1) (m sdiv 10) passkey'
      else mem)"
  by pat_completeness auto
termination
  by (relation "measure (\<lambda>(mem, this, i, m, passkey). nat (i + 1))") auto

definition PasskeyAscii_num :: "memory \<Rightarrow> addr \<Rightarrow> passkey_num_t \<Rightarrow> memory" where
  "PasskeyAscii_num mem this passkey = PasskeyAscii_num_loop mem this 5 100000 passkey"

text \<open>
  \<open>to_num\<close>. The difference \<open>ascii[i] - NUMBER_OFFSET\<close> is computed in \<open>int\<close> and
  converted to the unsigned type of \<open>m\<close> for the product, which is then added to the
  \<open>uint32_t\<close> sum. \<open>m\<close> is a \<open>size_t\<close>, 32 bits wide on the 32-bit targets of the
  library; \<open>m\<close> stays below \<open>10 ^ 6\<close> and the sum is cut to 32 bits, so a wider \<open>size_t\<close>
  gives the same result.
\<close>

function to_num_loop :: "memory \<Rightarrow> addr \<Rightarrow> nat \<Rightarrow> uint32_t \<Rightarrow> uint32_t \<Rightarrow> uint32_t" where
  "to_num_loop mem ascii i m passkey =
     (if i < PASSKEY_LEN then
        to_num_loop mem ascii (i + 1) (m * 10)
          (passkey + word_of_int (uint (mem (ascii + i)) - uint NUMBER_OFFSET) * m)
      else passkey)"
  by pat_completeness auto
termination
  by (relation "measure (\<lambda>(mem, ascii, i, m, passkey). PASSKEY_LEN - i)") auto

definition to_num :: "memory \<Rightarrow> addr \<Rightarrow> uint32_t" where
  "to_num mem ascii = to_num_loop mem ascii 0 1 0"

text \<open>The conversion operator \<open>operator passkey_num_t()\<close> and the accessor \<open>value()\<close>.\<close>

definition PasskeyAscii_to_passkey_num :: "memory \<Rightarrow> addr \<Rightarrow> passkey_num_t" where
  "PasskeyAscii_to_passkey_num mem this = to_num mem this"

definition PasskeyAscii_value :: "addr \<Rightarrow> addr" where
  "PasskeyAscii_value this = this"

text \<open>
  An ASCII digit is a byte between \<open>'0'\<close> and \<open>'9'\<close>; a buffer of ASCII digits has one
  in each of the six bytes from \<open>ascii\<close> on.
\<close>

definition ascii_digit :: "uint8_t \<Rightarrow> bool" where
  "ascii_digit b = (NUMBER_OFFSET \<le> b \<and> b \<le> NUMBER_OFFSET + 9)"

definition ascii_digits :: "memory \<Rightarrow> addr \<Rightarrow> bool" where
  "ascii_digits mem ascii = list_all ascii_digit (read_bytes mem ascii PASSKEY_LEN)"

subsection \<open>Fixed-size byte arrays\<close>

text \<open>
  \<open>byte_array_t<array_size>\<close> has one member, the array \<open>_value[array_size]\<close>, so the
  object at \<open>this\<close> is the \<open>array_size\<close> bytes from \<open>this\<close> on and \<open>sizeof(_value)\<close> is
  \<open>array_size\<close>. The template parameter is the first argument of each function.
\<close>

definition byte_array_size :: "nat \<Rightarrow> nat" where
  "byte_array_size array_size = array_size"

definition byte_array_subscript :: "memory \<Rightarrow> addr \<Rightarrow> nat \<Rightarrow> uint8_t" where
  "byte_array_subscript mem this i = mem (this + i)"

definition byte_array_t :: "nat \<Rightarrow> memory \<Rightarrow> addr \<Rightarrow> memory" where
  "byte_array_t array_size mem this = memset mem this 0x00 array_size"

definition byte_array_t_ptr :: "nat \<Rightarrow> memory \<Rightarrow> addr \<Rightarrow> addr \<Rightarrow> memory" where
  "byte_array_t_ptr array_size mem this input_value = memcpy mem this input_value array_size"

definition byte_array_t_ptr_size :: "nat \<Rightarrow> memory \<Rightarrow> addr \<Rightarrow> addr \<Rightarrow> nat \<Rightarrow> memory" where
  "byte_array_t_ptr_size array_size mem this input_value size' =
     memcpy mem this input_value size'"

text \<open>
  The templates \<open>is_all_zeros\<close> and \<open>set_all_zeros\<close>, at a \<open>byte_array_t<array_size>\<close>:
  \<open>byte_array.size()\<close> is \<open>array_size\<close>, \<open>byte_array[i]\<close> is the byte at offset \<open>i\<close>.
\<close>

function is_all_zeros_loop :: "nat \<Rightarrow> memory \<Rightarrow> addr \<Rightarrow> nat \<Rightarrow> bool" where
  "is_all_zeros_loop array_size mem byte_array i =
     (if i < byte_array_size array_size then
        (if byte_array_subscript mem byte_array i \<noteq> 0 then False
         else is_all_zeros_loop array_size mem byte_array (i + 1))
      else True)"
  by pat_completeness auto
termination
  by (relation "measure (\<lambda>(array_size, mem, byte_array, i). array_size - i)")
    (auto simp: byte_array_size_def)

definition is_all_zeros :: "nat \<Rightarrow> memory \<Rightarrow> addr \<Rightarrow> bool" where
  "is_all_zeros array_size mem byte_array = is_all_zeros_loop array_size mem byte_array 0"

definition set_all_zeros :: "nat \<Rightarrow> memory \<Rightarrow> addr \<Rightarrow> memory" where
  "set_all_zeros array_size mem byte_array =
     memset mem (byte_array + 0) 0x00 (byte_array_size array_size)"

subsection \<open>Type-safe enumerations\<close>

text \<open>
  Modelled from the spec: the template \<open>SafeEnum<Target, LayoutType>\<close> comes from
  \<^verbatim>\<open>ble/SafeEnum.h\<close>, which the header includes and which is not among the sources.
  Following section 4.1 of the specification, a value is constructed from an enumerator
  of its target and stores the enumerator's integral value in the layout type,
  \<open>value()\<close> gives the stored value back, and two values of the same target are equal
  when their stored values are. The target is a type parameter that no value uses: it
  keeps the enumerations apart as types.
\<close>

datatype ('target, 'layout) SafeEnum = SafeEnum (enum_value: 'layout)

definition SafeEnum_eq :: "('target, 'layout) SafeEnum \<Rightarrow> ('target, 'layout) SafeEnum \<Rightarrow> bool" where
  "SafeEnum_eq lhs rhs = (enum_value lhs = enum_value rhs)"

text \<open>
  Each \<open>enum type\<close> of the header is a datatype of its enumerators, with the integral
  value C++ gives each of them: the one written in the declaration, or else one more
  than that of the enumerator before it.
\<close>

datatype pairing_failure_type =
    PASSKEY_ENTRY_FAILED
  | OOB_NOT_AVAILABLE
  | AUTHENTICATION_REQUIREMENTS
  | CONFIRM_VALUE_FAILED
  | PAIRING_NOT_SUPPORTED
  | ENCRYPTION_KEY_SIZE
  | COMMAND_NOT_SUPPORTED
  | UNSPECIFIED_REASON
  | REPEATED_ATTEMPTS
  | INVALID_PARAMETERS
  | DHKEY_CHECK_FAILED
  | NUMERIC_COMPARISON_FAILED
  | BR_EDR_PAIRING_IN_PROGRESS
  | CROSS_TRANSPORT_KEY_DERIVATION_OR_GENERATION_NOT_ALLOWED

fun pairing_failure_type_int :: "pairing_failure_type \<Rightarrow> int" where
  "pairing_failure_type_int PASSKEY_ENTRY_FAILED = 0x01"
| "pairing_failure_type_int OOB_NOT_AVAILABLE = 0x02"
| "pairing_failure_type_int AUTHENTICATION_REQUIREMENTS = 0x03"
| "pairing_failure_type_int CONFIRM_VALUE_FAILED = 0x04"
| "pairing_failure_type_int PAIRING_NOT_SUPPORTED = 0x05"
| "pairing_failure_type_int ENCRYPTION_KEY_SIZE = 0x06"
| "pairing_failure_type_int COMMAND_NOT_SUPPORTED = 0x07"
| "pairing_failure_type_int UNSPECIFIED_REASON = 0x08"
| "pairing_failure_type_int REPEATED_ATTEMPTS = 0x09"
| "pairing_failure_type_int INVALID_PARAMETERS = 0x0A"
| "pairing_failure_type_int DHKEY_CHECK_FAILED = 0x0B"
| "pairing_failure_type_int NUMERIC_COMPARISON_FAILED = 0x0c"
| "pairing_failure_type_int BR_EDR_PAIRING_IN_PROGRESS = 0x0D"
| "pairing_failure_type_int CROSS_TRANSPORT_KEY_DERIVATION_OR_GENERATION_NOT_ALLOWED = 0x0E"

type_synonym pairing_failure_t = "(pairing_failure_type, uint8_t) SafeEnum"

definition pairing_failure_t :: "pairing_failure_type \<Rightarrow> pairing_failure_t" where
  "pairing_failure_t v = SafeEnum (word_of_int (pairing_failure_type_int v))"

datatype io_capability_type =
    DISPLAY_ONLY
  | DISPLAY_YES_NO
  | KEYBOARD_ONLY
  | NO_INPUT_NO_OUTPUT
  | KEYBOARD_DISPLAY

fun io_capability_type_int :: "io_capability_type \<Rightarrow> int" where
  "io_capability_type_int DISPLAY_ONLY = 0x00"
| "io_capability_type_int DISPLAY_YES_NO = 0x01"
| "io_capability_type_int KEYBOARD_ONLY = 0x02"
| "io_capability_type_int NO_INPUT_NO_OUTPUT = 0x03"
| "io_capability_type_int KEYBOARD_DISPLAY = 0x04"

type_synonym io_capability_t = "(io_capability_type, uint8_t) SafeEnum"

definition io_capability_t :: "io_capability_type \<Rightarrow> io_capability_t" where
  "io_capability_t v = SafeEnum (word_of_int (io_capability_type_int v))"

datatype peer_address_type =
    PUBLIC
  | RANDOM
  | PUBLIC_IDENTITY
  | RANDOM_STATIC_IDENTITY

fun peer_address_type_int :: "peer_address_type \<Rightarrow> int" where
  "peer_address_type_int PUBLIC = 0"
| "peer_address_type_int RANDOM = 0 + 1"
| "peer_address_type_int PUBLIC_IDENTITY = 0 + 1 + 1"
| "peer_address_type_int RANDOM_STATIC_IDENTITY = 0 + 1 + 1 + 1"

type_synonym peer_address_type_t = "(peer_address_type, uint8_t) SafeEnum"

definition peer_address_type_t :: "peer_address_type \<Rightarrow> peer_address_type_t" where
  "peer_address_type_t v = SafeEnum (word_of_int (peer_address_type_int v))"

text \<open>The default constructor of \<open>peer_address_type_t\<close>.\<close>

definition peer_address_type_t_default :: peer_address_type_t where
  "peer_address_type_t_default = SafeEnum (word_of_int (peer_address_type_int PUBLIC))"

section \<open>Decimal digits\<close>

text \<open>
  Facts of positional notation in base ten, on natural numbers: the digits of a number
  add up to it, and a sum of digits times powers of ten has those digits.
\<close>

lemma digit_sum_mod:
  "(\<Sum>j<k. (N div 10 ^ j mod 10) * 10 ^ j) = (N::nat) mod 10 ^ k"
proof (induction k)
  case 0
  show ?case by simp
next
  case (Suc k)
  have "N mod (10 ^ k * 10) = 10 ^ k * (N div 10 ^ k mod 10) + N mod 10 ^ k"
    by (rule mod_mult2_eq)
  with Suc show ?case by (simp add: mult.commute)
qed

lemma digit_sum_less:
  "(\<And>j. j < k \<Longrightarrow> d j < (10::nat)) \<Longrightarrow> (\<Sum>j<k. d j * 10 ^ j) < 10 ^ k"
proof (induction k)
  case 0
  show ?case by simp
next
  case (Suc k)
  have aux: "\<And>S T P::nat. S < P \<Longrightarrow> T \<le> 9 * P \<Longrightarrow> S + T < 10 * P" by linarith
  have 1: "(\<Sum>j<k. d j * 10 ^ j) < 10 ^ k" using Suc by simp
  have "d k \<le> 9" using Suc.prems [of k] by simp
  then have 2: "d k * 10 ^ k \<le> 9 * 10 ^ k" by (rule mult_le_mono1)
  show ?case using aux [OF 1 2] by simp
qed

lemma digit_sum_digit:
  "(\<And>j. j < k \<Longrightarrow> d j < (10::nat)) \<Longrightarrow> i < k \<Longrightarrow> (\<Sum>j<k. d j * 10 ^ j) div 10 ^ i mod 10 = d i"
proof (induction k)
  case 0
  then show ?case by simp
next
  case (Suc k)
  let ?S = "\<Sum>j<k. d j * 10 ^ j"
  have less: "?S < 10 ^ k" using Suc.prems(1) by (intro digit_sum_less) simp
  show ?case
  proof (cases "i = k")
    case True
    have "(?S + d k * 10 ^ k) div 10 ^ k = d k" using less by simp
    moreover have "d k < 10" using Suc.prems(1) by simp
    ultimately show ?thesis using True by simp
  next
    case False
    then have ik: "i < k" using Suc.prems(2) by simp
    obtain e where e: "k = i + Suc e" using less_imp_Suc_add [OF ik] by auto
    have "d k * 10 ^ k = (d k * 10 ^ e * 10) * 10 ^ i"
      by (simp add: e power_add)
    then have "(?S + d k * 10 ^ k) div 10 ^ i = ?S div 10 ^ i + d k * 10 ^ e * 10"
      by (simp only: div_mult_self1 div_mult_self2 div_mult_self3 div_mult_self4) simp
    then have "(?S + d k * 10 ^ k) div 10 ^ i mod 10 = ?S div 10 ^ i mod 10"
      by (simp only: mod_mult_self1 mod_mult_self2 mod_mult_self3 mod_mult_self4)
    also have "\<dots> = d i" using Suc.IH [OF _ ik] Suc.prems(1) by simp
    finally show ?thesis by simp
  qed
qed

lemma mod_pow_digit:
  "j < n \<Longrightarrow> ((N::nat) mod 10 ^ n) div 10 ^ j mod 10 = N div 10 ^ j mod 10"
proof -
  assume "j < n"
  then obtain e where e: "n = j + Suc e" using less_imp_Suc_add [of j n] by auto
  have "(N mod (10 ^ j * 10 ^ Suc e)) div 10 ^ j = (N div 10 ^ j) mod 10 ^ Suc e"
    by (simp add: mod_mult2_eq)
  then have "(N mod 10 ^ n) div 10 ^ j = (N div 10 ^ j) mod (10 * 10 ^ e)"
    by (simp only: e power_add power_Suc)
  then show ?thesis
    by (simp only: mod_mod_cancel [OF dvd_triv_left])
qed

section \<open>The passkey loops\<close>

text \<open>The loops are unfolded one step at a time, never by the simplifier on its own.\<close>

declare PasskeyAscii_num_loop.simps [simp del]
declare to_num_loop.simps [simp del]
declare is_all_zeros_loop.simps [simp del]

subsection \<open>\<open>to_num\<close> as a sum\<close>

lemma to_num_loop_sum:
  "i \<le> PASSKEY_LEN \<Longrightarrow>
   to_num_loop mem a i m p =
     p + (\<Sum>j = i..<PASSKEY_LEN.
            word_of_int (uint (mem (a + j)) - uint NUMBER_OFFSET) * (m * 10 ^ (j - i)))"
proof (induction mem a i m p rule: to_num_loop.induct)
  case (1 mem a i m p)
  let ?t = "\<lambda>j. (word_of_int (uint (mem (a + j)) - uint NUMBER_OFFSET) :: uint32_t)"
  show ?case
  proof (cases "i < PASSKEY_LEN")
    case False
    then show ?thesis by (subst to_num_loop.simps) simp
  next
    case True
    have step: "to_num_loop mem a i m p = to_num_loop mem a (i + 1) (m * 10) (p + ?t i * m)"
      using True by (subst to_num_loop.simps) simp
    have "(\<Sum>j = i + 1..<PASSKEY_LEN. ?t j * (m * 10 * 10 ^ (j - (i + 1))))
        = (\<Sum>j = i + 1..<PASSKEY_LEN. ?t j * (m * 10 ^ (j - i)))"
    proof (rule sum.cong)
      fix x assume "x \<in> {i + 1..<PASSKEY_LEN}"
      then have "x - i = Suc (x - (i + 1))" by auto
      then show "?t x * (m * 10 * 10 ^ (x - (i + 1))) = ?t x * (m * 10 ^ (x - i))"
        by (simp add: mult.assoc)
    qed simp
    moreover have "(\<Sum>j = i..<PASSKEY_LEN. ?t j * (m * 10 ^ (j - i)))
        = ?t i * m + (\<Sum>j = i + 1..<PASSKEY_LEN. ?t j * (m * 10 ^ (j - i)))"
      using True by (simp add: sum.atLeast_Suc_lessThan)
    ultimately show ?thesis
      using "1.IH" [OF True] True step by (simp add: add.assoc)
  qed
qed

lemma to_num_sum:
  "to_num mem a =
     (\<Sum>j<PASSKEY_LEN. word_of_int (uint (mem (a + j)) - uint NUMBER_OFFSET) * 10 ^ j)"
  by (simp add: to_num_def to_num_loop_sum atLeast0LessThan)

subsection \<open>The digits written by the constructor from a number\<close>

lemma pow10_less: "n \<le> 9 \<Longrightarrow> (10::nat) ^ n < 2 ^ 32"
proof -
  assume "n \<le> 9"
  then have "(10::nat) ^ n \<le> 10 ^ 9" by (intro power_increasing) simp_all
  then show ?thesis by simp
qed

lemma unat_pow10: "n \<le> 9 \<Longrightarrow> unat ((10::uint32_t) ^ n) = 10 ^ n"
proof -
  assume n: "n \<le> 9"
  have "(10::uint32_t) ^ n = of_nat (10 ^ n)" by simp
  then have "unat ((10::uint32_t) ^ n) = 10 ^ n mod 2 ^ 32"
    by (simp only: unat_of_nat) simp
  then show ?thesis using pow10_less [OF n] by simp
qed

lemma word_digit:
  assumes n: "n \<le> 9" and p: "unat p < 10 ^ Suc n"
  shows "(ucast (ucast NUMBER_OFFSET + p div 10 ^ n :: uint32_t) :: uint8_t)
           = NUMBER_OFFSET + of_nat (unat p div 10 ^ n mod 10)"
proof -
  let ?r = "unat p div 10 ^ n"
  have r: "?r < 10" using p by (simp add: less_mult_imp_div_less mult.commute)
  have "unat (p div 10 ^ n) = ?r" by (simp add: unat_div unat_pow10 [OF n])
  then have "p div 10 ^ n = of_nat ?r" by (metis of_nat_unat ucast_id)
  then have "(ucast NUMBER_OFFSET + p div 10 ^ n :: uint32_t) = of_nat (48 + ?r)"
    by (simp add: NUMBER_OFFSET_def)
  moreover have "(ucast (of_nat (48 + ?r) :: uint32_t) :: uint8_t) = of_nat (48 + ?r)"
    using r by (simp only: unsigned_of_nat) (simp add: take_bit_nat_eq_self)
  ultimately show ?thesis using r by (simp add: NUMBER_OFFSET_def)
qed

lemma word_rest:
  "n \<le> 9 \<Longrightarrow> unat (p - p div 10 ^ n * 10 ^ n :: uint32_t) = unat p mod 10 ^ n"
  by (simp add: minus_div_mult_eq_mod unat_mod unat_pow10)

lemma sdiv_pow10: "((10::int) * 10 ^ n) sdiv 10 = 10 ^ n"
  by (simp add: signed_divide_int_def)

lemma num_loop_step:
  "0 \<le> i \<Longrightarrow>
   PasskeyAscii_num_loop mem this i m p =
     PasskeyAscii_num_loop
       (mem(this + nat i := ucast (ucast NUMBER_OFFSET + p div word_of_int m :: uint32_t)))
       this (i - 1) (m sdiv 10) (p - p div word_of_int m * word_of_int m)"
  by (subst PasskeyAscii_num_loop.simps) (simp add: Let_def)

lemma num_loop_exit: "i < 0 \<Longrightarrow> PasskeyAscii_num_loop mem this i m p = mem"
  by (subst PasskeyAscii_num_loop.simps) simp

lemma num_loop_digits:
  "n \<le> 10 \<Longrightarrow> unat p < 10 ^ n \<Longrightarrow> (0 < n \<Longrightarrow> m = 10 ^ (n - 1)) \<Longrightarrow>
   PasskeyAscii_num_loop mem this (int n - 1) m p =
     (\<lambda>a. if this \<le> a \<and> a < this + n
          then NUMBER_OFFSET + of_nat (unat p div 10 ^ (a - this) mod 10) else mem a)"
proof (induction n arbitrary: mem m p)
  case 0
  have empty: "(this \<le> a \<and> a < this) = False" for a by auto
  show ?case by (simp add: num_loop_exit empty)
next
  case (Suc n)
  have n: "n \<le> 9" using Suc.prems(1) by simp
  have m: "m = 10 ^ n" using Suc.prems(3) by simp
  let ?b = "NUMBER_OFFSET + of_nat (unat p div 10 ^ n mod 10)"
  let ?p = "p - p div 10 ^ n * 10 ^ n"
  have p': "unat ?p = unat p mod 10 ^ n" by (rule word_rest [OF n])
  have "PasskeyAscii_num_loop mem this (int (Suc n) - 1) m p =
        PasskeyAscii_num_loop (mem(this + n := ?b)) this (int n - 1) (m sdiv 10) ?p"
    using word_digit [OF n Suc.prems(2)] by (subst num_loop_step) (simp_all add: m)
  also have "\<dots> = (\<lambda>a. if this \<le> a \<and> a < this + n
          then NUMBER_OFFSET + of_nat (unat ?p div 10 ^ (a - this) mod 10)
          else (mem(this + n := ?b)) a)"
  proof (rule Suc.IH)
    show "n \<le> 10" using n by simp
    show "unat ?p < 10 ^ n" by (simp add: p')
    show "m sdiv 10 = 10 ^ (n - 1)" if "0 < n"
    proof -
      from that obtain k where "n = Suc k" by (cases n) auto
      then show ?thesis by (simp add: m sdiv_pow10)
    qed
  qed
  also have "\<dots> = (\<lambda>a. if this \<le> a \<and> a < this + Suc n
          then NUMBER_OFFSET + of_nat (unat p div 10 ^ (a - this) mod 10) else mem a)"
  proof (rule ext)
    fix a
    show "(if this \<le> a \<and> a < this + n
          then NUMBER_OFFSET + of_nat (unat ?p div 10 ^ (a - this) mod 10)
          else (mem(this + n := ?b)) a) =
       (if this \<le> a \<and> a < this + Suc n
          then NUMBER_OFFSET + of_nat (unat p div 10 ^ (a - this) mod 10) else mem a)"
    proof (cases "this \<le> a \<and> a < this + n")
      case True
      then have "a - this < n" by auto
      then have "unat ?p div 10 ^ (a - this) mod 10 = unat p div 10 ^ (a - this) mod 10"
        unfolding p' by (rule mod_pow_digit)
      then show ?thesis using True by simp
    next
      case False
      then show ?thesis by auto
    qed
  qed
  finally show ?case .
qed

subsection \<open>Reading the six bytes of a passkey\<close>

lemma read_bytes_6:
  "read_bytes mem p PASSKEY_LEN =
     [mem (p + 0), mem (p + 1), mem (p + 2), mem (p + 3), mem (p + 4), mem (p + 5)]"
proof -
  have "[0..<6] = [0, 1, 2, 3, 4, 5::nat]" by (simp add: upt_rec)
  then show ?thesis by (simp add: read_bytes_def PASSKEY_LEN_def)
qed

lemma null_pointer_memory:
  "PasskeyAscii_ptr mem this 0 = (\<lambda>a. if this \<le> a \<and> a < this + 6 then 0x30 else mem a)"
  by (simp add: PasskeyAscii_ptr_def memset_def NUMBER_OFFSET_def PASSKEY_LEN_def)

subsection \<open>Digits as bytes\<close>

lemma passkey_num_memory:
  assumes "n \<le> 999999"
  shows "PasskeyAscii_num mem this n =
     (\<lambda>a. if this \<le> a \<and> a < this + PASSKEY_LEN
          then NUMBER_OFFSET + of_nat (unat n div 10 ^ (a - this) mod 10) else mem a)"
proof -
  have "unat n \<le> 999999" using assms by (simp add: word_le_nat_alt)
  then have n: "unat n < 10 ^ 6" by simp
  have "PasskeyAscii_num_loop mem this (int 6 - 1) (10 ^ (6 - 1)) n =
     (\<lambda>a. if this \<le> a \<and> a < this + 6
          then NUMBER_OFFSET + of_nat (unat n div 10 ^ (a - this) mod 10) else mem a)"
    using n by (intro num_loop_digits) simp_all
  then show ?thesis by (simp add: PasskeyAscii_num_def PASSKEY_LEN_def)
qed

lemma digit_byte_unat:
  "d < 10 \<Longrightarrow> unat (NUMBER_OFFSET + of_nat d) = 48 + d"
proof -
  assume d: "d < 10"
  have "NUMBER_OFFSET + of_nat d = (of_nat (48 + d) :: uint8_t)"
    by (simp add: NUMBER_OFFSET_def)
  then have "unat (NUMBER_OFFSET + of_nat d) = (48 + d) mod 2 ^ 8"
    by (simp only: unat_of_nat) simp
  then show ?thesis using d by simp
qed

lemma digit_byte_bounds:
  "(NUMBER_OFFSET \<le> b \<and> b \<le> NUMBER_OFFSET + 9) = (48 \<le> unat b \<and> unat b \<le> 57)"
  by (simp add: word_le_nat_alt NUMBER_OFFSET_def)

lemma digit_byte_value:
  assumes "48 \<le> unat b" 
  shows "(word_of_int (uint b - uint NUMBER_OFFSET) :: uint32_t) = of_nat (unat b - 48)"
proof -
  have "uint b = int (unat b)" by (rule uint_nat)
  moreover have "uint NUMBER_OFFSET = 48" by (simp add: NUMBER_OFFSET_def)
  ultimately have "uint b - uint NUMBER_OFFSET = int (unat b - 48)"
    using assms by linarith
  then show ?thesis by (simp only: of_int_of_nat_eq)
qed

lemma digit_byte_back:
  assumes "48 \<le> unat (b::uint8_t)"
  shows "NUMBER_OFFSET + of_nat (unat b - 48) = b"
proof -
  have "NUMBER_OFFSET + of_nat (unat b - 48) = (of_nat (48 + (unat b - 48)) :: uint8_t)"
    by (simp add: NUMBER_OFFSET_def)
  also have "\<dots> = of_nat (unat b)" using assms by simp
  finally show ?thesis by simp
qed

lemma ascii_digits_iff:
  "ascii_digits mem a = (\<forall>j<PASSKEY_LEN. 48 \<le> unat (mem (a + j)) \<and> unat (mem (a + j)) \<le> 57)"
  by (auto simp: ascii_digits_def ascii_digit_def read_bytes_def list_all_iff digit_byte_bounds)

lemma to_num_digits:
  assumes "ascii_digits mem a"
  shows "to_num mem a = of_nat (\<Sum>j<PASSKEY_LEN. (unat (mem (a + j)) - 48) * 10 ^ j)"
proof -
  have "(\<Sum>j<PASSKEY_LEN. word_of_int (uint (mem (a + j)) - uint NUMBER_OFFSET) * 10 ^ j)
      = (\<Sum>j<PASSKEY_LEN. (of_nat ((unat (mem (a + j)) - 48) * 10 ^ j) :: uint32_t))"
  proof (rule sum.cong)
    fix j assume "j \<in> {..<PASSKEY_LEN}"
    then have "48 \<le> unat (mem (a + j))" using assms by (simp add: ascii_digits_iff)
    then show "word_of_int (uint (mem (a + j)) - uint NUMBER_OFFSET) * 10 ^ j
         = (of_nat ((unat (mem (a + j)) - 48) * 10 ^ j) :: uint32_t)"
      by (simp only: digit_byte_value of_nat_mult of_nat_power of_nat_numeral)
  qed simp
  then show ?thesis by (simp only: to_num_sum of_nat_sum)
qed

lemma to_num_digits_unat:
  assumes "ascii_digits mem a"
  shows "unat (to_num mem a) = (\<Sum>j<PASSKEY_LEN. (unat (mem (a + j)) - 48) * 10 ^ j)"
    and "(\<Sum>j<PASSKEY_LEN. (unat (mem (a + j)) - 48) * 10 ^ j) < 10 ^ PASSKEY_LEN"
proof -
  let ?S = "\<Sum>j<PASSKEY_LEN. (unat (mem (a + j)) - 48) * 10 ^ j"
  show less: "?S < 10 ^ PASSKEY_LEN"
    using assms by (intro digit_sum_less) (auto simp: ascii_digits_iff)
  then have "?S < 2 ^ 32" by (simp add: PASSKEY_LEN_def)
  then have "?S mod 2 ^ 32 = ?S" by simp
  then show "unat (to_num mem a) = ?S"
    by (simp only: to_num_digits [OF assms] unat_of_nat) simp
qed

lemma passkey_num_digits:
  assumes "n \<le> 999999"
  shows "ascii_digits (PasskeyAscii_num mem this n) this"
proof -
  have "x mod 10 \<le> (9::nat)" for x
    using mod_less_divisor [of 10 x] by linarith
  then show ?thesis
    by (simp add: ascii_digits_iff passkey_num_memory [OF assms] digit_byte_unat)
qed

lemma to_num_of_num:
  assumes "n \<le> 999999"
  shows "to_num (PasskeyAscii_num mem this n) this = n"
proof -
  let ?M = "PasskeyAscii_num mem this n"
  have "unat n \<le> 999999" using assms by (simp add: word_le_nat_alt)
  then have n: "unat n < 10 ^ PASSKEY_LEN" by (simp add: PASSKEY_LEN_def)
  have "(\<Sum>j<PASSKEY_LEN. (unat (?M (this + j)) - 48) * 10 ^ j)
      = (\<Sum>j<PASSKEY_LEN. (unat n div 10 ^ j mod 10) * 10 ^ j)"
    by (rule sum.cong) (simp_all add: passkey_num_memory [OF assms] digit_byte_unat)
  also have "\<dots> = unat n mod 10 ^ PASSKEY_LEN" by (rule digit_sum_mod)
  also have "\<dots> = unat n" using n by simp
  finally show ?thesis
    by (simp add: to_num_digits [OF passkey_num_digits [OF assms]])
qed

lemma num_of_to_num:
  assumes "ascii_digits mem a" and "j < PASSKEY_LEN"
  shows "PasskeyAscii_num mem' this (to_num mem a) (this + j) = mem (a + j)"
proof -
  let ?d = "\<lambda>j. unat (mem (a + j)) - 48"
  have d: "?d k < 10" if "k < PASSKEY_LEN" for k
    using assms(1) that by (auto simp: ascii_digits_iff)
  have "unat (to_num mem a) < 10 ^ PASSKEY_LEN"
    using to_num_digits_unat [OF assms(1)] by simp
  then have "unat (to_num mem a) \<le> unat (999999 :: uint32_t)" by (simp add: PASSKEY_LEN_def)
  then have le: "to_num mem a \<le> 999999" by (simp only: word_le_nat_alt)
  have "unat (to_num mem a) div 10 ^ j mod 10 = ?d j"
    unfolding to_num_digits_unat(1) [OF assms(1)]
    using d assms(2) by (intro digit_sum_digit) 
  then have "PasskeyAscii_num mem' this (to_num mem a) (this + j)
               = NUMBER_OFFSET + of_nat (?d j)"
    using assms(2) by (simp add: passkey_num_memory [OF le])
  also have "\<dots> = mem (a + j)"
    using assms by (intro digit_byte_back) (simp add: ascii_digits_iff)
  finally show ?thesis .
qed

subsection \<open>The value of \<open>to_num\<close> as an integer\<close>

lemma to_num_word_of_int:
  "to_num mem a =
     word_of_int (\<Sum>i<PASSKEY_LEN. (uint (mem (a + i)) - uint NUMBER_OFFSET) * 10 ^ i)"
  by (simp only: to_num_sum of_int_sum of_int_mult of_int_power of_int_numeral)

lemma to_num_uint:
  assumes "ascii_digits mem a"
  shows "uint (to_num mem a) =
     (\<Sum>i<PASSKEY_LEN. (uint (mem (a + i)) - uint NUMBER_OFFSET) * 10 ^ i)"
proof -
  have "(\<Sum>i<PASSKEY_LEN. (uint (mem (a + i)) - uint NUMBER_OFFSET) * 10 ^ i)
      = (\<Sum>i<PASSKEY_LEN. int ((unat (mem (a + i)) - 48) * 10 ^ i))"
  proof (rule sum.cong)
    fix i assume "i \<in> {..<PASSKEY_LEN}"
    then have b: "48 \<le> unat (mem (a + i))" using assms by (simp add: ascii_digits_iff)
    have "uint (mem (a + i)) = int (unat (mem (a + i)))" by (rule uint_nat)
    moreover have "uint NUMBER_OFFSET = 48" by (simp add: NUMBER_OFFSET_def)
    ultimately have "uint (mem (a + i)) - uint NUMBER_OFFSET = int (unat (mem (a + i)) - 48)"
      using b by linarith
    then show "(uint (mem (a + i)) - uint NUMBER_OFFSET) * 10 ^ i
                 = int ((unat (mem (a + i)) - 48) * 10 ^ i)"
      by (simp only: of_nat_mult of_nat_power of_nat_numeral)
  qed simp
  also have "\<dots> = int (\<Sum>i<PASSKEY_LEN. (unat (mem (a + i)) - 48) * 10 ^ i)"
    by (simp only: of_nat_sum)
  also have "\<dots> = int (unat (to_num mem a))"
    by (simp only: to_num_digits_unat(1) [OF assms])
  also have "\<dots> = uint (to_num mem a)" by (rule uint_nat [symmetric])
  finally show ?thesis by simp
qed

subsection \<open>The conversions as a bijection on byte lists\<close>

lemma read_bytes_nth:
  "j < n \<Longrightarrow> read_bytes mem p n ! j = mem (p + j)"
  by (simp add: read_bytes_def)

lemma read_bytes_of_list:
  "length bs = n \<Longrightarrow> read_bytes (\<lambda>a. bs ! a) 0 n = bs"
  using map_nth [of bs] by (simp add: read_bytes_def)

lemma to_num_read_bytes:
  "to_num (\<lambda>a. read_bytes mem p PASSKEY_LEN ! a) 0 = to_num mem p"
proof -
  have "(\<Sum>j<PASSKEY_LEN.
          word_of_int (uint (read_bytes mem p PASSKEY_LEN ! (0 + j)) - uint NUMBER_OFFSET) * 10 ^ j)
      = (\<Sum>j<PASSKEY_LEN.
          (word_of_int (uint (mem (p + j)) - uint NUMBER_OFFSET) * 10 ^ j :: uint32_t))"
    by (rule sum.cong) (simp_all only: add_0 read_bytes_nth lessThan_iff)
  then show ?thesis by (simp only: to_num_sum)
qed

lemma passkey_bytes_bij:
  "bij_betw (\<lambda>n. read_bytes (PasskeyAscii_num mem this n) this PASSKEY_LEN)
     {n. n \<le> 999999} {bs. length bs = PASSKEY_LEN \<and> list_all ascii_digit bs}"
proof (rule bij_betw_byWitness [where f' = "\<lambda>bs. to_num (\<lambda>a. bs ! a) 0"])
  show "\<forall>n\<in>{n. n \<le> 999999}.
          to_num (\<lambda>a. read_bytes (PasskeyAscii_num mem this n) this PASSKEY_LEN ! a) 0 = n"
    by (simp only: to_num_read_bytes) (simp add: to_num_of_num)
next
  show "\<forall>bs\<in>{bs. length bs = PASSKEY_LEN \<and> list_all ascii_digit bs}.
          read_bytes (PasskeyAscii_num mem this (to_num (\<lambda>a. bs ! a) 0)) this PASSKEY_LEN = bs"
  proof
    fix bs assume "bs \<in> {bs. length bs = PASSKEY_LEN \<and> list_all ascii_digit bs}"
    then have len: "length bs = PASSKEY_LEN" and all: "list_all ascii_digit bs" by simp_all
    have rb: "read_bytes (\<lambda>a. bs ! a) 0 PASSKEY_LEN = bs" by (rule read_bytes_of_list [OF len])
    have digits: "ascii_digits (\<lambda>a. bs ! a) 0" by (simp only: ascii_digits_def rb all)
    have "read_bytes (PasskeyAscii_num mem this (to_num (\<lambda>a. bs ! a) 0)) this PASSKEY_LEN
            = read_bytes (\<lambda>a. bs ! a) 0 PASSKEY_LEN"
      unfolding read_bytes_def
      by (rule map_cong) (simp_all add: num_of_to_num [OF digits])
    then show "read_bytes (PasskeyAscii_num mem this (to_num (\<lambda>a. bs ! a) 0)) this PASSKEY_LEN
            = bs"
      by (simp only: rb)
  qed
next
  show "(\<lambda>n. read_bytes (PasskeyAscii_num mem this n) this PASSKEY_LEN) ` {n. n \<le> 999999}
          \<subseteq> {bs. length bs = PASSKEY_LEN \<and> list_all ascii_digit bs}"
  proof (clarify, intro conjI)
    fix n :: passkey_num_t assume n: "n \<le> 999999"
    show "length (read_bytes (PasskeyAscii_num mem this n) this PASSKEY_LEN) = PASSKEY_LEN"
      by (simp add: read_bytes_def)
    show "list_all ascii_digit (read_bytes (PasskeyAscii_num mem this n) this PASSKEY_LEN)"
      using passkey_num_digits [OF n] by (simp only: ascii_digits_def)
  qed
next
  show "(\<lambda>bs. to_num (\<lambda>a. bs ! a) 0) ` {bs. length bs = PASSKEY_LEN \<and> list_all ascii_digit bs}
          \<subseteq> {n. n \<le> 999999}"
  proof clarify
    fix bs :: "uint8_t list"
    assume len: "length bs = PASSKEY_LEN" and all: "list_all ascii_digit bs"
    have rb: "read_bytes (\<lambda>a. bs ! a) 0 PASSKEY_LEN = bs" by (rule read_bytes_of_list [OF len])
    have digits: "ascii_digits (\<lambda>a. bs ! a) 0" by (simp only: ascii_digits_def rb all)
    have "unat (to_num (\<lambda>a. bs ! a) 0) < 10 ^ PASSKEY_LEN"
      using to_num_digits_unat [OF digits] by simp
    then have "unat (to_num (\<lambda>a. bs ! a) 0) \<le> unat (999999 :: uint32_t)"
      by (simp add: PASSKEY_LEN_def)
    then show "to_num (\<lambda>a. bs ! a) 0 \<le> 999999" by (simp only: word_le_nat_alt)
  qed
qed

section \<open>The zero test of a byte array\<close>

lemma is_all_zeros_loop_iff:
  "is_all_zeros_loop array_size mem byte_array i =
     (\<forall>j. i \<le> j \<and> j < array_size \<longrightarrow> mem (byte_array + j) = 0)"
proof (induction array_size mem byte_array i rule: is_all_zeros_loop.induct)
  case (1 array_size mem byte_array i)
  show ?case
  proof (cases "i < array_size")
    case False
    then show ?thesis
      by (subst is_all_zeros_loop.simps) (auto simp: byte_array_size_def)
  next
    case True
    show ?thesis
    proof (cases "mem (byte_array + i) = 0")
      case False
      then have "is_all_zeros_loop array_size mem byte_array i = False"
        using True
        by (subst is_all_zeros_loop.simps) (simp add: byte_array_size_def byte_array_subscript_def)
      moreover have "\<not> (\<forall>j. i \<le> j \<and> j < array_size \<longrightarrow> mem (byte_array + j) = 0)"
        using True False by auto
      ultimately show ?thesis by simp
    next
      case zero: True
      have "is_all_zeros_loop array_size mem byte_array i =
            is_all_zeros_loop array_size mem byte_array (i + 1)"
        using True zero
        by (subst is_all_zeros_loop.simps) (simp add: byte_array_size_def byte_array_subscript_def)
      also have "\<dots> = (\<forall>j. i + 1 \<le> j \<and> j < array_size \<longrightarrow> mem (byte_array + j) = 0)"
        using True zero by (intro "1.IH") (simp_all add: byte_array_size_def byte_array_subscript_def)
      also have "\<dots> = (\<forall>j. i \<le> j \<and> j < array_size \<longrightarrow> mem (byte_array + j) = 0)"
      proof
        assume r: "\<forall>j. i + 1 \<le> j \<and> j < array_size \<longrightarrow> mem (byte_array + j) = 0"
        show "\<forall>j. i \<le> j \<and> j < array_size \<longrightarrow> mem (byte_array + j) = 0"
        proof (intro allI impI)
          fix j assume j: "i \<le> j \<and> j < array_size"
          show "mem (byte_array + j) = 0"
          proof (cases "j = i")
            case True
            then show ?thesis using zero by simp
          next
            case False
            then show ?thesis using r j by simp
          qed
        qed
      next
        assume "\<forall>j. i \<le> j \<and> j < array_size \<longrightarrow> mem (byte_array + j) = 0"
        then show "\<forall>j. i + 1 \<le> j \<and> j < array_size \<longrightarrow> mem (byte_array + j) = 0"
          by simp
      qed
      finally show ?thesis .
    qed
  qed
qed

lemma is_all_zeros_iff:
  "is_all_zeros array_size mem byte_array = (\<forall>j<array_size. mem (byte_array + j) = 0)"
  by (simp add: is_all_zeros_def is_all_zeros_loop_iff)

section \<open>Properties of the header\<close>

subsection \<open>Passkeys\<close>

text \<open>
  Claim C1. The two passkey conversions are inverse bijections between the numbers up
  to 999999 and the buffers of six ASCII digits: for a number \<open>n\<close> up to 999999 the
  constructor writes six ASCII digits and \<open>to_num\<close> of them is \<open>n\<close>; for a buffer of
  six ASCII digits \<open>to_num\<close> is at most 999999 and the constructor, given that number,
  writes the buffer again byte for byte. So the map from a number to the six bytes the
  constructor writes is a bijection from the numbers up to 999999 to the lists of six
  ASCII digits.
\<close>

theorem passkey_conversion_bijection:
  "(n \<le> 999999 \<longrightarrow>
      ascii_digits (PasskeyAscii_num mem this n) this
      \<and> to_num (PasskeyAscii_num mem this n) this = n)
   \<and> (ascii_digits mem a \<longrightarrow>
      to_num mem a \<le> 999999
      \<and> read_bytes (PasskeyAscii_num mem' this' (to_num mem a)) this' PASSKEY_LEN
          = read_bytes mem a PASSKEY_LEN)
   \<and> bij_betw (\<lambda>n. read_bytes (PasskeyAscii_num mem this n) this PASSKEY_LEN)
        {n. n \<le> 999999} {bs. length bs = PASSKEY_LEN \<and> list_all ascii_digit bs}"
proof (intro conjI impI)
  show "bij_betw (\<lambda>n. read_bytes (PasskeyAscii_num mem this n) this PASSKEY_LEN)
        {n. n \<le> 999999} {bs. length bs = PASSKEY_LEN \<and> list_all ascii_digit bs}"
    by (rule passkey_bytes_bij)
next
  assume "n \<le> 999999"
  then show "ascii_digits (PasskeyAscii_num mem this n) this"
    and "to_num (PasskeyAscii_num mem this n) this = n"
    by (rule passkey_num_digits, rule to_num_of_num)
next
  assume digits: "ascii_digits mem a"
  have "unat (to_num mem a) < 10 ^ PASSKEY_LEN"
    using to_num_digits_unat [OF digits] by simp
  then have "unat (to_num mem a) \<le> unat (999999 :: uint32_t)"
    by (simp add: PASSKEY_LEN_def)
  then show "to_num mem a \<le> 999999" by (simp only: word_le_nat_alt)
  show "read_bytes (PasskeyAscii_num mem' this' (to_num mem a)) this' PASSKEY_LEN
          = read_bytes mem a PASSKEY_LEN"
    unfolding read_bytes_def
    by (rule map_cong) (simp_all add: num_of_to_num [OF digits])
qed

theorem passkey_conversion_bijection_witness:
  "(123456 :: passkey_num_t) \<le> 999999
   \<and> to_num (PasskeyAscii_num zero_memory 0 123456) 0 = 123456
   \<and> ascii_digits
        (zero_memory(16 := 0x39, 17 := 0x30, 18 := 0x32, 19 := 0x31, 20 := 0x30, 21 := 0x30)) 16
   \<and> read_bytes
        (PasskeyAscii_num zero_memory 0
          (to_num
            (zero_memory(16 := 0x39, 17 := 0x30, 18 := 0x32, 19 := 0x31, 20 := 0x30, 21 := 0x30))
            16))
        0 PASSKEY_LEN
       = [0x39, 0x30, 0x32, 0x31, 0x30, 0x30]"
proof -
  let ?mem = "zero_memory(16 := 0x39, 17 := 0x30, 18 := 0x32, 19 := 0x31, 20 := 0x30, 21 := 0x30)"
  have le: "(123456 :: passkey_num_t) \<le> 999999" by simp
  have digits: "ascii_digits ?mem 16"
    by (simp add: ascii_digits_def ascii_digit_def read_bytes_6 NUMBER_OFFSET_def)
  have bytes: "read_bytes ?mem 16 PASSKEY_LEN = [0x39, 0x30, 0x32, 0x31, 0x30, 0x30]"
    by (simp add: read_bytes_6)
  have num: "to_num (PasskeyAscii_num zero_memory 0 123456) 0 = 123456"
    using passkey_conversion_bijection [of 123456 zero_memory 0] le by blast
  have "read_bytes (PasskeyAscii_num zero_memory 0 (to_num ?mem 16)) 0 PASSKEY_LEN
          = read_bytes ?mem 16 PASSKEY_LEN"
    using passkey_conversion_bijection [of _ ?mem _ 16 zero_memory 0] digits by blast
  then have again: "read_bytes (PasskeyAscii_num zero_memory 0 (to_num ?mem 16)) 0 PASSKEY_LEN
          = [0x39, 0x30, 0x32, 0x31, 0x30, 0x30]"
    by (simp only: bytes)
  show ?thesis
    by (intro conjI) (rule le, rule num, rule digits, rule again)
qed

text \<open>
  Claim C2, as the code has it. For a number \<open>n\<close> up to 999999 the constructor writes
  at index \<open>i\<close> the byte \<open>'0' + (n div 10 ^ i) mod 10\<close>: index 0 holds the least
  significant digit, index 5 the most significant one.
\<close>

theorem passkey_digit_order:
  "n \<le> 999999 \<Longrightarrow> i < PASSKEY_LEN \<Longrightarrow>
   PasskeyAscii_num mem this n (this + i) = NUMBER_OFFSET + of_nat (unat n div 10 ^ i mod 10)"
  by (simp add: passkey_num_memory)

theorem passkey_digit_order_witness:
  "(123456 :: passkey_num_t) \<le> 999999 \<and> (0::nat) < PASSKEY_LEN
   \<and> PasskeyAscii_num zero_memory 0 123456 (0 + 0) = 0x36"
proof -
  have le: "(123456 :: passkey_num_t) \<le> 999999" by simp
  have i: "(0::nat) < PASSKEY_LEN" by (simp add: PASSKEY_LEN_def)
  show ?thesis
    using passkey_digit_order [OF le i, of zero_memory 0] le i
    by (simp add: NUMBER_OFFSET_def)
qed

text \<open>
  Claim C2 as written puts the digit of \<open>10 ^ (5 - i)\<close> at index \<open>i\<close>. For 123456 the
  code stores \<open>'6'\<close> at index 0, where that formula gives \<open>'1'\<close>.
\<close>

theorem passkey_most_significant_first_counterexample:
  "(123456 :: passkey_num_t) \<le> 999999 \<and> (0::nat) < PASSKEY_LEN
   \<and> PasskeyAscii_num zero_memory 0 123456 (0 + 0) = 0x36
   \<and> NUMBER_OFFSET + of_nat (unat (123456 :: passkey_num_t) div 10 ^ (5 - 0) mod 10)
       = (0x31 :: uint8_t)
   \<and> PasskeyAscii_num zero_memory 0 123456 (0 + 0)
       \<noteq> NUMBER_OFFSET + of_nat (unat (123456 :: passkey_num_t) div 10 ^ (5 - 0) mod 10)"
proof -
  have le: "(123456 :: passkey_num_t) \<le> 999999" by simp
  show ?thesis
    by (simp add: passkey_num_memory [OF le] NUMBER_OFFSET_def PASSKEY_LEN_def)
qed

text \<open>
  Claim C3. \<open>to_num\<close> is the sum of \<open>(b i - '0') * 10 ^ i\<close> over the six bytes, index 0
  being the ones place: as a 32-bit value for every buffer, and exactly for a buffer of
  ASCII digits. The constructor stores 123456 as the bytes
  \<open>'6', '5', '4', '3', '2', '1'\<close>, and \<open>to_num\<close> of a buffer holding these bytes is
  123456.
\<close>

theorem to_num_little_endian_sum:
  "to_num mem a =
     word_of_int (\<Sum>i<PASSKEY_LEN. (uint (mem (a + i)) - uint NUMBER_OFFSET) * 10 ^ i)
   \<and> (ascii_digits mem a \<longrightarrow>
        uint (to_num mem a) =
          (\<Sum>i<PASSKEY_LEN. (uint (mem (a + i)) - uint NUMBER_OFFSET) * 10 ^ i))
   \<and> read_bytes (PasskeyAscii_num mem' this 123456) this PASSKEY_LEN
        = [0x36, 0x35, 0x34, 0x33, 0x32, 0x31]
   \<and> (read_bytes mem a PASSKEY_LEN = [0x36, 0x35, 0x34, 0x33, 0x32, 0x31] \<longrightarrow>
        to_num mem a = 123456)"
proof (intro conjI impI)
  show "to_num mem a =
     word_of_int (\<Sum>i<PASSKEY_LEN. (uint (mem (a + i)) - uint NUMBER_OFFSET) * 10 ^ i)"
    by (rule to_num_word_of_int)
next
  assume "ascii_digits mem a"
  then show "uint (to_num mem a) =
          (\<Sum>i<PASSKEY_LEN. (uint (mem (a + i)) - uint NUMBER_OFFSET) * 10 ^ i)"
    by (rule to_num_uint)
next
  have le: "(123456 :: passkey_num_t) \<le> 999999" by simp
  show "read_bytes (PasskeyAscii_num mem' this 123456) this PASSKEY_LEN
        = [0x36, 0x35, 0x34, 0x33, 0x32, 0x31]"
    by (simp only: read_bytes_6 passkey_num_memory [OF le])
       (simp add: NUMBER_OFFSET_def PASSKEY_LEN_def)
next
  assume "read_bytes mem a PASSKEY_LEN = [0x36, 0x35, 0x34, 0x33, 0x32, 0x31]"
  then have "mem (a + 0) = 0x36 \<and> mem (a + 1) = 0x35 \<and> mem (a + 2) = 0x34
     \<and> mem (a + 3) = 0x33 \<and> mem (a + 4) = 0x32 \<and> mem (a + 5) = 0x31"
    by (simp only: read_bytes_6 list.inject)
  moreover have "{..<PASSKEY_LEN} = {0, 1, 2, 3, 4, 5}"
    by (auto simp: PASSKEY_LEN_def)
  ultimately show "to_num mem a = 123456"
    by (simp add: to_num_sum NUMBER_OFFSET_def)
qed

theorem to_num_little_endian_sum_witness:
  "ascii_digits (zero_memory(8 := 0x36, 9 := 0x35, 10 := 0x34, 11 := 0x33, 12 := 0x32, 13 := 0x31)) 8
   \<and> read_bytes (zero_memory(8 := 0x36, 9 := 0x35, 10 := 0x34, 11 := 0x33, 12 := 0x32, 13 := 0x31))
        8 PASSKEY_LEN = [0x36, 0x35, 0x34, 0x33, 0x32, 0x31]
   \<and> to_num (zero_memory(8 := 0x36, 9 := 0x35, 10 := 0x34, 11 := 0x33, 12 := 0x32, 13 := 0x31)) 8
        = 123456
   \<and> uint (to_num (zero_memory(8 := 0x36, 9 := 0x35, 10 := 0x34, 11 := 0x33, 12 := 0x32, 13 := 0x31)) 8)
        = (\<Sum>i<PASSKEY_LEN.
            (uint ((zero_memory(8 := 0x36, 9 := 0x35, 10 := 0x34, 11 := 0x33, 12 := 0x32, 13 := 0x31))
                    (8 + i))
              - uint NUMBER_OFFSET) * 10 ^ i)
   \<and> uint (to_num (zero_memory(8 := 0x36, 9 := 0x35, 10 := 0x34, 11 := 0x33, 12 := 0x32, 13 := 0x31)) 8)
        = 6 + 5 * 10 + 4 * 100 + 3 * 1000 + 2 * 10000 + 1 * 100000"
proof -
  let ?mem = "zero_memory(8 := 0x36, 9 := 0x35, 10 := 0x34, 11 := 0x33, 12 := 0x32, 13 := 0x31)"
  have digits: "ascii_digits ?mem 8"
    by (simp add: ascii_digits_def ascii_digit_def read_bytes_6 NUMBER_OFFSET_def)
  have bytes: "read_bytes ?mem 8 PASSKEY_LEN = [0x36, 0x35, 0x34, 0x33, 0x32, 0x31]"
    by (simp add: read_bytes_6)
  have num: "to_num ?mem 8 = 123456"
    using to_num_little_endian_sum [of ?mem 8] bytes by blast
  have sum: "uint (to_num ?mem 8)
        = (\<Sum>i<PASSKEY_LEN. (uint (?mem (8 + i)) - uint NUMBER_OFFSET) * 10 ^ i)"
    using to_num_little_endian_sum [of ?mem 8] digits by blast
  have val: "uint (to_num ?mem 8) = 6 + 5 * 10 + 4 * 100 + 3 * 1000 + 2 * 10000 + 1 * 100000"
    by (simp only: num) simp
  show ?thesis
    by (intro conjI) (rule digits, rule bytes, rule num, rule sum, rule val)
qed

text \<open>
  Claim C10. The constructor of \<open>PasskeyAscii\<close> from a null pointer leaves the memory
  exactly as the default constructor does, whatever the memory holds: the object is
  the six bytes \<open>'0'\<close>, and its conversion to a number is 0.
\<close>

theorem passkey_from_null_pointer:
  "PasskeyAscii_ptr mem this 0 = PasskeyAscii mem this
   \<and> read_bytes (PasskeyAscii_ptr mem this 0) this PASSKEY_LEN = [0x30, 0x30, 0x30, 0x30, 0x30, 0x30]
   \<and> to_num (PasskeyAscii_ptr mem this 0) this = 0
   \<and> PasskeyAscii_to_passkey_num (PasskeyAscii_ptr mem this 0) this = 0"
proof -
  have same: "PasskeyAscii_ptr mem this 0 = PasskeyAscii mem this"
    by (simp add: PasskeyAscii_ptr_def PasskeyAscii_def)
  have bytes: "read_bytes (PasskeyAscii_ptr mem this 0) this PASSKEY_LEN
                 = [0x30, 0x30, 0x30, 0x30, 0x30, 0x30]"
    by (simp only: read_bytes_6 null_pointer_memory) simp
  have num: "to_num (PasskeyAscii_ptr mem this 0) this = 0"
    by (simp only: to_num_sum null_pointer_memory) (simp add: NUMBER_OFFSET_def PASSKEY_LEN_def)
  show ?thesis
    using same bytes num by (simp add: PasskeyAscii_to_passkey_num_def)
qed

subsection \<open>Enumerations\<close>

text \<open>
  Claim C4. The enumerators of \<open>pairing_failure_t\<close> carry the codes 0x01
  (\<open>PASSKEY_ENTRY_FAILED\<close>) to 0x0E
  (\<open>CROSS_TRANSPORT_KEY_DERIVATION_OR_GENERATION_NOT_ALLOWED\<close>) and those of
  \<open>io_capability_t\<close> the codes 0x00 (\<open>DISPLAY_ONLY\<close>) to 0x04 (\<open>KEYBOARD_DISPLAY\<close>), both as
  the byte a value constructed from the enumerator stores and as the integral value of
  the enumerator; in particular \<open>DHKEY_CHECK_FAILED\<close> is 0x0B and \<open>KEYBOARD_DISPLAY\<close> is
  0x04.
\<close>

theorem enumerator_wire_codes:
  "enum_value (pairing_failure_t PASSKEY_ENTRY_FAILED) = 0x01
   \<and> enum_value (pairing_failure_t OOB_NOT_AVAILABLE) = 0x02
   \<and> enum_value (pairing_failure_t AUTHENTICATION_REQUIREMENTS) = 0x03
   \<and> enum_value (pairing_failure_t CONFIRM_VALUE_FAILED) = 0x04
   \<and> enum_value (pairing_failure_t PAIRING_NOT_SUPPORTED) = 0x05
   \<and> enum_value (pairing_failure_t ENCRYPTION_KEY_SIZE) = 0x06
   \<and> enum_value (pairing_failure_t COMMAND_NOT_SUPPORTED) = 0x07
   \<and> enum_value (pairing_failure_t UNSPECIFIED_REASON) = 0x08
   \<and> enum_value (pairing_failure_t REPEATED_ATTEMPTS) = 0x09
   \<and> enum_value (pairing_failure_t INVALID_PARAMETERS) = 0x0A
   \<and> enum_value (pairing_failure_t DHKEY_CHECK_FAILED) = 0x0B
   \<and> enum_value (pairing_failure_t NUMERIC_COMPARISON_FAILED) = 0x0C
   \<and> enum_value (pairing_failure_t BR_EDR_PAIRING_IN_PROGRESS) = 0x0D
   \<and> enum_value (pairing_failure_t CROSS_TRANSPORT_KEY_DERIVATION_OR_GENERATION_NOT_ALLOWED) = 0x0E
   \<and> enum_value (io_capability_t DISPLAY_ONLY) = 0x00
   \<and> enum_value (io_capability_t DISPLAY_YES_NO) = 0x01
   \<and> enum_value (io_capability_t KEYBOARD_ONLY) = 0x02
   \<and> enum_value (io_capability_t NO_INPUT_NO_OUTPUT) = 0x03
   \<and> enum_value (io_capability_t KEYBOARD_DISPLAY) = 0x04
   \<and> map pairing_failure_type_int
         [PASSKEY_ENTRY_FAILED, OOB_NOT_AVAILABLE, AUTHENTICATION_REQUIREMENTS,
          CONFIRM_VALUE_FAILED, PAIRING_NOT_SUPPORTED, ENCRYPTION_KEY_SIZE,
          COMMAND_NOT_SUPPORTED, UNSPECIFIED_REASON, REPEATED_ATTEMPTS, INVALID_PARAMETERS,
          DHKEY_CHECK_FAILED, NUMERIC_COMPARISON_FAILED, BR_EDR_PAIRING_IN_PROGRESS,
          CROSS_TRANSPORT_KEY_DERIVATION_OR_GENERATION_NOT_ALLOWED]
       = [0x01, 0x02, 0x03, 0x04, 0x05, 0x06, 0x07, 0x08, 0x09, 0x0A, 0x0B, 0x0C, 0x0D, 0x0E]
   \<and> map io_capability_type_int
         [DISPLAY_ONLY, DISPLAY_YES_NO, KEYBOARD_ONLY, NO_INPUT_NO_OUTPUT, KEYBOARD_DISPLAY]
       = [0x00, 0x01, 0x02, 0x03, 0x04]"
  by (simp add: pairing_failure_t_def io_capability_t_def)

text \<open>
  Claim C9. A default-constructed \<open>peer_address_type_t\<close> is the value constructed from
  \<open>PUBLIC\<close>, it stores 0, and the enumerator \<open>PUBLIC\<close> has the integral value 0.
\<close>

theorem peer_address_type_default_public:
  "peer_address_type_t_default = peer_address_type_t PUBLIC
   \<and> enum_value peer_address_type_t_default = 0
   \<and> peer_address_type_int PUBLIC = 0"
  by (simp add: peer_address_type_t_default_def peer_address_type_t_def)

subsection \<open>Byte arrays\<close>

text \<open>
  Claim C5, as the code has it. The constructor of \<open>byte_array_t\<close> from a pointer and a
  length copies exactly \<open>size\<close> bytes, byte \<open>i\<close> of the source to offset \<open>i\<close> of the
  object, and leaves every other byte of the memory as it was. So with a length up to
  \<open>array_size\<close> no byte outside the object is written, and the bytes of the object
  behind the copied ones keep what the storage held before.
\<close>

theorem byte_array_from_buffer:
  "(i < size' \<longrightarrow>
      byte_array_t_ptr_size array_size mem this input_value size' (this + i)
        = mem (input_value + i))
   \<and> (\<not> (this \<le> a \<and> a < this + size') \<longrightarrow>
      byte_array_t_ptr_size array_size mem this input_value size' a = mem a)
   \<and> (size' \<le> array_size \<and> \<not> (this \<le> a \<and> a < this + array_size) \<longrightarrow>
      byte_array_t_ptr_size array_size mem this input_value size' a = mem a)"
  by (auto simp: byte_array_t_ptr_size_def memcpy_def)

theorem byte_array_from_buffer_witness:
  "(1::nat) < 2 \<and> (2::nat) \<le> 4
   \<and> byte_array_t_ptr_size 4 (zero_memory(10 := 7, 11 := 8)) 0 10 2 (0 + 1) = 8
   \<and> \<not> ((0::addr) \<le> 2 \<and> (2::addr) < 0 + 2)
   \<and> \<not> ((0::addr) \<le> 4 \<and> (4::addr) < 0 + 4)
   \<and> byte_array_t_ptr_size 4 (zero_memory(10 := 7, 11 := 8)) 0 10 2 2 = 0
   \<and> byte_array_t_ptr_size 4 (zero_memory(10 := 7, 11 := 8)) 0 10 2 4 = 0"
  using byte_array_from_buffer [of 1 2 4 "zero_memory(10 := 7, 11 := 8)" 0 10 2]
    byte_array_from_buffer [of 1 2 4 "zero_memory(10 := 7, 11 := 8)" 0 10 4]
  by (simp add: zero_memory_def)

text \<open>
  Claim C5 as written has the constructor copy no more than \<open>array_size\<close> bytes and
  never write outside the object. With \<open>array_size = 2\<close> and a length of 3 the object
  at address 0 ends before address 2, and the third byte of the source lands there.
\<close>

theorem byte_array_overrun_counterexample:
  "\<not> ((0::addr) \<le> 2 \<and> (2::addr) < 0 + 2)
   \<and> (zero_memory(10 := 1, 11 := 2, 12 := 3)) 2 = 0
   \<and> byte_array_t_ptr_size 2 (zero_memory(10 := 1, 11 := 2, 12 := 3)) 0 10 3 2 = 3
   \<and> byte_array_t_ptr_size 2 (zero_memory(10 := 1, 11 := 2, 12 := 3)) 0 10 3 2
       \<noteq> (zero_memory(10 := 1, 11 := 2, 12 := 3)) 2"
  by (simp add: byte_array_t_ptr_size_def memcpy_def zero_memory_def)

text \<open>
  Claim C7. For every size, a default-constructed \<open>byte_array_t\<close> satisfies
  \<open>is_all_zeros\<close>, whatever the storage held before; and after \<open>set_all_zeros\<close> a byte
  array satisfies \<open>is_all_zeros\<close>, whatever it held before.
\<close>

theorem zeroed_byte_array_is_all_zeros:
  "is_all_zeros array_size (byte_array_t array_size mem this) this
   \<and> is_all_zeros array_size (set_all_zeros array_size mem byte_array) byte_array"
  by (simp add: is_all_zeros_iff byte_array_t_def set_all_zeros_def memset_def byte_array_size_def)

subsection \<open>Attribute handle ranges\<close>

text \<open>
  Claim C8. Equality of \<open>attribute_handle_range_t\<close> is pointwise on the two handles: a
  range equals itself, it differs from a range with the same beginning and another end,
  and two ranges are equal exactly when their beginnings and their ends are.
\<close>

theorem attribute_handle_range_equality:
  "range_eq (attribute_handle_range a b) (attribute_handle_range a b)
   \<and> (b \<noteq> c \<longrightarrow> range_neq (attribute_handle_range a b) (attribute_handle_range a c))
   \<and> range_eq (attribute_handle_range a b) (attribute_handle_range a' b') = (a = a' \<and> b = b')"
  by (simp add: range_eq_def range_neq_def attribute_handle_range_def)

theorem attribute_handle_range_equality_witness:
  "range_eq (attribute_handle_range 1 2) (attribute_handle_range 1 2)
   \<and> (2::attribute_handle_t) \<noteq> 3
   \<and> range_neq (attribute_handle_range 1 2) (attribute_handle_range 1 3)"
  using attribute_handle_range_equality [of 1 2 3 1 2] by simp

end
